theory Spec2Isabelle
  imports Main
begin

section \<open>Case converter (src/index.ts, lines 110-139)\<close>

text \<open>
  Strings are lists of characters. The case mapping of a character is the one of
  \<^verbatim>\<open>String.prototype.toUpperCase\<close> and \<^verbatim>\<open>toLowerCase\<close> on the Latin letters
  \<^verbatim>\<open>a-z\<close> and \<^verbatim>\<open>A-Z\<close>; every other character is its own upper and lower case.
\<close>

definition lowerLetters :: string where
  "lowerLetters = ''abcdefghijklmnopqrstuvwxyz''"

definition upperLetters :: string where
  "upperLetters = ''ABCDEFGHIJKLMNOPQRSTUVWXYZ''"

definition charToUpperCase :: "char \<Rightarrow> char" where
  "charToUpperCase c =
     (case map_of (zip lowerLetters upperLetters) c of Some u \<Rightarrow> u | None \<Rightarrow> c)"

definition charToLowerCase :: "char \<Rightarrow> char" where
  "charToLowerCase c =
     (case map_of (zip upperLetters lowerLetters) c of Some l \<Rightarrow> l | None \<Rightarrow> c)"

text \<open>\<^verbatim>\<open>char === char.toUpperCase() && char !== char.toLowerCase()\<close>\<close>

definition isUpper :: "char \<Rightarrow> bool" where
  "isUpper c = (c = charToUpperCase c \<and> c \<noteq> charToLowerCase c)"

text \<open>\<^verbatim>\<open>nextChar === nextChar.toLowerCase() && nextChar !== nextChar.toUpperCase()\<close>\<close>

definition isLower :: "char \<Rightarrow> bool" where
  "isLower c = (c = charToLowerCase c \<and> c \<noteq> charToUpperCase c)"

text \<open>The character class \<^verbatim>\<open>[a-z]\<close> of the regular expression in \<^verbatim>\<open>toCamelCase\<close>.\<close>

definition isAZ :: "char \<Rightarrow> bool" where
  "isAZ c = (c \<in> set lowerLetters)"

text \<open>
  The loop of \<^verbatim>\<open>toSnakeCase\<close>. The first argument is the previous character
  \<^verbatim>\<open>str[i - 1]\<close>, \<open>None\<close> at \<^verbatim>\<open>i = 0\<close>; the next character is the head of the rest.
\<close>

fun toSnakeLoop :: "char option \<Rightarrow> string \<Rightarrow> string" where
  "toSnakeLoop prev [] = []"
| "toSnakeLoop prev (c # cs) =
     (if isUpper c then
        (let prevIsUpper = (case prev of None \<Rightarrow> False | Some p \<Rightarrow> isUpper p);
             nextIsLower = (case cs of [] \<Rightarrow> False | n # _ \<Rightarrow> isLower n)
         in (if prev \<noteq> None \<and> (\<not> prevIsUpper \<or> (prevIsUpper \<and> nextIsLower))
             then [CHR ''_''] else [])
            @ charToLowerCase c # toSnakeLoop (Some c) cs)
      else c # toSnakeLoop (Some c) cs)"

definition toSnakeCase :: "string \<Rightarrow> string" where
  "toSnakeCase str = (if str = [] then str else toSnakeLoop None str)"

text \<open>
  \<^verbatim>\<open>str.replace(/_([a-z])/g, (_, letter) => letter.toUpperCase())\<close>: a scan from the left,
  each match consumes the underscore and the letter.
\<close>

fun camelReplace :: "string \<Rightarrow> string" where
  "camelReplace (c # d # cs) =
     (if c = CHR ''_'' \<and> isAZ d then charToUpperCase d # camelReplace cs
      else c # camelReplace (d # cs))"
| "camelReplace cs = cs"

definition toCamelCase :: "string \<Rightarrow> string" where
  "toCamelCase str = (if str = [] then str else camelReplace str)"

section \<open>Values, instances and options\<close>

datatype jstype =
  TUndefined | TObject | TBoolean | TNumber | TBigint | TString | TSymbol | TFunction

text \<open>
  A runtime value. A function is known by a name only; a plain object is the list of its
  own enumerable properties in insertion order; an instance of a \<^verbatim>\<open>FlexDto\<close> subclass
  carries the name of its class, its own properties and the chain of prototypes between
  the instance and \<^verbatim>\<open>FlexDto.prototype\<close>, each with its own data properties (a method is a
  property holding a function). The properties \<^verbatim>\<open>_opts\<close> and \<^verbatim>\<open>_strictMode\<close> of an
  instance are kept apart, in the record below.
\<close>

datatype jsval =
    JUndefined
  | JNull
  | JBool bool
  | JNum int
  | JBigInt int
  | JStr string
  | JSymbol string
  | JFun string
  | JArr "jsval list"
  | JObj "(string \<times> jsval) list"
  | JDto string "(string \<times> jsval) list" "(string \<times> jsval) list list"

text \<open>
  Outside the model: accessor properties (getters and setters) and properties that are not
  writable, on the instance, its prototypes or the data; proxies; property names that are
  array indices, which an object enumerates before its other names; numbers that are not
  integers; a \<^verbatim>\<open>toJSON\<close> method other than the one of \<^verbatim>\<open>FlexDto\<close>. A transform is a pure
  function of the raw value that returns a value or raises. The alias and transform tables are
  read as their own entries only.
\<close>

type_synonym props = "(string \<times> jsval) list"

fun typeof :: "jsval \<Rightarrow> jstype" where
  "typeof JUndefined = TUndefined"
| "typeof JNull = TObject"
| "typeof (JBool b) = TBoolean"
| "typeof (JNum n) = TNumber"
| "typeof (JBigInt n) = TBigint"
| "typeof (JStr s) = TString"
| "typeof (JSymbol s) = TSymbol"
| "typeof (JFun f) = TFunction"
| "typeof (JArr xs) = TObject"
| "typeof (JObj ps) = TObject"
| "typeof (JDto c own protos) = TObject"

fun truthy :: "jsval \<Rightarrow> bool" where
  "truthy JUndefined = False"
| "truthy JNull = False"
| "truthy (JBool b) = b"
| "truthy (JNum n) = (n \<noteq> 0)"
| "truthy (JBigInt n) = (n \<noteq> 0)"
| "truthy (JStr s) = (s \<noteq> [])"
| "truthy v = True"

datatype jserror = TypeError string | Thrown string

fun errorMessage :: "jserror \<Rightarrow> string" where
  "errorMessage (TypeError m) = m"
| "errorMessage (Thrown m) = m"

type_synonym TransformFn = "jsval \<Rightarrow> jserror + jsval"

record FlexDtoOptions =
  aliases :: "(string \<times> string list) list"
  transforms :: "(string \<times> TransformFn) list"
  strictMode :: "bool option"

definition noOptions :: FlexDtoOptions where
  "noOptions = \<lparr>aliases = [], transforms = [], strictMode = None\<rparr>"

text \<open>
  The instance \<^verbatim>\<open>this\<close>. \<open>aliasMetadata\<close> and \<open>transformMetadata\<close> are the entries of the two
  module-level weak maps for the prototype of the instance's class, what \<^verbatim>\<open>getAliases(this)\<close>
  and \<^verbatim>\<open>getTransforms(this)\<close> return.
\<close>

record FlexDto =
  className :: string
  own :: props
  protos :: "props list"
  opts :: FlexDtoOptions
  strictModeAuto :: bool
  aliasMetadata :: "(string \<times> string list) list"
  transformMetadata :: "(string \<times> TransformFn) list"

text \<open>The ambient flags that \<^verbatim>\<open>isDevelopmentMode\<close> reads.\<close>

record env =
  nodeEnv :: "string option"
  globalStrictFlag :: bool
  windowStrictFlag :: bool

definition isDevelopmentMode :: "env \<Rightarrow> bool" where
  "isDevelopmentMode e =
     (if nodeEnv e = Some ''development'' then True
      else if globalStrictFlag e \<or> windowStrictFlag e then True
      else False)"

datatype diag =
    TypeMismatch string string jstype jstype jsval
  | TransformFailed string string string


text \<open>
  What a call leaves behind: the instance and the warnings written so far, and the error
  when the call ended by raising one.
\<close>

datatype outcome =
    Returned FlexDto "diag list"
  | Threw jserror FlexDto "diag list"

fun outcomeInstance :: "outcome \<Rightarrow> FlexDto" where
  "outcomeInstance (Returned t ds) = t"
| "outcomeInstance (Threw e t ds) = t"


fun hasThrown :: "outcome \<Rightarrow> bool" where
  "hasThrown (Returned t ds) = False"
| "hasThrown (Threw e t ds) = True"

section \<open>Property access\<close>

definition startsWithUnderscore :: "string \<Rightarrow> bool" where
  "startsWithUnderscore s = (case s of [] \<Rightarrow> False | c # _ \<Rightarrow> c = CHR ''_'')"

text \<open>
  \<^verbatim>\<open>obj[k] = v\<close> on own properties: an existing property keeps its place, a new one is
  added at the end.
\<close>

fun setProp :: "('k \<times> 'v) list \<Rightarrow> 'k \<Rightarrow> 'v \<Rightarrow> ('k \<times> 'v) list" where
  "setProp [] k v = [(k, v)]"
| "setProp ((k', v') # ps) k v =
     (if k' = k then (k, v) # ps else (k', v') # setProp ps k v)"

text \<open>The methods that every instance inherits, by name.\<close>

definition flexDtoPrototype :: "string list" where
  "flexDtoPrototype =
     [''constructor'', ''validateType'', ''getClassFields'', ''isValidFieldName'',
      ''findMatchingField'', ''init'', ''toPlain'', ''toJSON'']"

definition objectPrototype :: "string list" where
  "objectPrototype =
     [''constructor'', ''hasOwnProperty'', ''isPrototypeOf'', ''propertyIsEnumerable'',
      ''toLocaleString'', ''toString'', ''valueOf'', ''__defineGetter__'',
      ''__defineSetter__'', ''__lookupGetter__'', ''__lookupSetter__'']"

fun protoLookup :: "props list \<Rightarrow> string \<Rightarrow> jsval option" where
  "protoLookup [] k = None"
| "protoLookup (p # ps) k =
     (case map_of p k of Some v \<Rightarrow> Some v | None \<Rightarrow> protoLookup ps k)"

text \<open>\<^verbatim>\<open>this[k]\<close>: own property, then the prototype chain.\<close>

definition getMember :: "props \<Rightarrow> props list \<Rightarrow> string \<Rightarrow> jsval" where
  "getMember ownProps chain k =
     (case map_of ownProps k of
        Some v \<Rightarrow> v
      | None \<Rightarrow>
         (case protoLookup chain k of
            Some v \<Rightarrow> v
          | None \<Rightarrow>
             if k \<in> set flexDtoPrototype \<or> k \<in> set objectPrototype then JFun k
             else JUndefined))"

definition thisGet :: "FlexDto \<Rightarrow> string \<Rightarrow> jsval" where
  "thisGet this k = getMember (own this) (protos this) k"

definition thisSet :: "FlexDto \<Rightarrow> string \<Rightarrow> jsval \<Rightarrow> FlexDto" where
  "thisSet this k v = this\<lparr>own := setProp (own this) k v\<rparr>"

section \<open>Declared-field discovery (\<^verbatim>\<open>getClassFields\<close>, lines 324-359)\<close>

definition setAdd :: "string list \<Rightarrow> string \<Rightarrow> string list" where
  "setAdd fieldSet x = (if x \<in> set fieldSet then fieldSet else fieldSet @ [x])"

definition instanceFields :: "props \<Rightarrow> props list \<Rightarrow> string list" where
  "instanceFields ownProps chain =
     fold (\<lambda>prop fieldSet.
             if \<not> startsWithUnderscore prop then
               (if typeof (getMember ownProps chain prop) \<noteq> TFunction
                then setAdd fieldSet prop else fieldSet)
             else fieldSet)
          (map fst ownProps) []"

definition prototypeFields :: "props \<Rightarrow> string list \<Rightarrow> string list" where
  "prototypeFields proto start =
     fold (\<lambda>(prop, v) fieldSet.
             if prop \<noteq> ''constructor'' \<and> \<not> startsWithUnderscore prop then
               (if typeof v \<noteq> TFunction then setAdd fieldSet prop else fieldSet)
             else fieldSet)
          proto start"

definition getClassFields :: "props \<Rightarrow> props list \<Rightarrow> string list" where
  "getClassFields ownProps chain = fold prototypeFields chain (instanceFields ownProps chain)"

section \<open>Plain-object projection (\<^verbatim>\<open>toPlain\<close>, lines 539-565)\<close>

text \<open>
  A value read from an instance is one of its own properties, a property of a prototype of
  its chain, an inherited method or \<^verbatim>\<open>undefined\<close>; so it is smaller than the instance, which is
  what the recursion of \<open>toPlain\<close> into nested instances needs.
\<close>

lemma protoLookup_mem:
  "protoLookup chain k = Some v \<Longrightarrow> \<exists>p \<in> set chain. (k, v) \<in> set p"
  by (induction chain) (auto split: option.splits dest: map_of_SomeD)

lemma getMember_cases:
  "getMember ownProps chain k = v \<Longrightarrow>
     (k, v) \<in> set ownProps \<or> (\<exists>p \<in> set chain. (k, v) \<in> set p) \<or> v = JFun k \<or> v = JUndefined"
  by (auto simp: getMember_def split: option.splits if_splits dest: map_of_SomeD protoLookup_mem)

lemma size_props_less:
  "(k, v) \<in> set ps \<Longrightarrow> size v < Suc (size_list (size_prod (\<lambda>_. 0) size) ps)"
  by (induction ps) auto

lemma size_chain_less:
  "p \<in> set chain \<Longrightarrow> (k, v) \<in> set p \<Longrightarrow>
     size v < Suc (size_list (size_list (size_prod (\<lambda>_. 0) size)) chain)"
  by (induction chain) (auto dest: size_props_less)

lemma size_getMember:
  "size (getMember ownProps chain k)
     < Suc (size_list (size_prod (\<lambda>_. 0) size) ownProps
            + size_list (size_list (size_prod (\<lambda>_. 0) size)) chain)"
  using getMember_cases[where ownProps=ownProps and chain=chain and k=k, OF refl]
  by (auto dest: size_props_less size_chain_less)

lemma size_item_less: "x \<in> set xs \<Longrightarrow> size x < size (JArr xs)"
  by (induction xs) auto

lemma size_member_dto:
  assumes "JDto c o' ch' = getMember ownProps chain key"
  shows "size_list (size_prod (\<lambda>_. 0) size) o' + size_list (size_list (size_prod (\<lambda>_. 0) size)) ch'
           < size_list (size_prod (\<lambda>_. 0) size) ownProps
             + size_list (size_list (size_prod (\<lambda>_. 0) size)) chain"
  using size_getMember[of ownProps chain key] assms[symmetric] by simp

lemma size_member_item:
  assumes "JArr items = getMember ownProps chain key" "JDto c o' ch' \<in> set items"
  shows "size_list (size_prod (\<lambda>_. 0) size) o' + size_list (size_list (size_prod (\<lambda>_. 0) size)) ch'
           < size_list (size_prod (\<lambda>_. 0) size) ownProps
             + size_list (size_list (size_prod (\<lambda>_. 0) size)) chain"
  using size_getMember[of ownProps chain key] assms(1)[symmetric] size_item_less[OF assms(2)]
  by simp

text \<open>
  The method \<^verbatim>\<open>toPlain\<close> of the instance with the given own properties and prototype chain.
  \<^verbatim>\<open>result[outputKey] = ...\<close> is \<open>setProp\<close> on the result built so far.
\<close>

function toPlain :: "bool \<Rightarrow> props \<Rightarrow> props list \<Rightarrow> props" where
  "toPlain useSnakeCase ownProps chain =
     fold (\<lambda>key result.
             let v = getMember ownProps chain key in
             if typeof v = TFunction \<or> startsWithUnderscore key then result
             else
               let outputKey = (if useSnakeCase then toSnakeCase key else key) in
               (case v of
                  JDto c ownProps' chain' \<Rightarrow>
                    setProp result outputKey (JObj (toPlain useSnakeCase ownProps' chain'))
                | JArr items \<Rightarrow>
                    setProp result outputKey
                      (JArr (map (\<lambda>item. case item of
                                     JDto c ownProps' chain' \<Rightarrow>
                                       JObj (toPlain useSnakeCase ownProps' chain')
                                   | _ \<Rightarrow> item) items))
                | _ \<Rightarrow> setProp result outputKey v))
          (getClassFields ownProps chain) []"
  by pat_completeness auto
termination
  apply (relation "measure (\<lambda>(u, ownProps, chain). size (JDto [] ownProps chain))")
    apply simp
  subgoal for u ownProps chain x xa xb xc x9 xd c o' ch'
    using size_member_item[of x9 ownProps chain x c o' ch'] by simp
  subgoal for u ownProps chain x xa xb xc c o' ch'
    using size_member_dto[of c o' ch' ownProps chain x] by simp
  done

definition toJSON :: "props \<Rightarrow> props list \<Rightarrow> props" where
  "toJSON ownProps chain = toPlain False ownProps chain"

section \<open>Diagnostics (\<^verbatim>\<open>validateType\<close>, lines 289-312)\<close>

text \<open>
  The warning text interpolates \<^verbatim>\<open>JSON.stringify(value)\<close>. The text itself is not modelled:
  a diagnostic keeps the value. What is modelled is when \<^verbatim>\<open>JSON.stringify\<close> raises: it
  raises a \<^verbatim>\<open>TypeError\<close> on a BigInt, also on one inside an array, a plain object, or an
  instance (which it serialises through \<^verbatim>\<open>toJSON\<close>, that is through the values of the
  declared fields).
\<close>

function jsonStringifyThrows :: "jsval \<Rightarrow> bool" where
  "jsonStringifyThrows (JBigInt n) = True"
| "jsonStringifyThrows (JArr items) = list_ex jsonStringifyThrows items"
| "jsonStringifyThrows (JObj ps) = list_ex (\<lambda>(k, v). jsonStringifyThrows v) ps"
| "jsonStringifyThrows (JDto c ownProps chain) =
     list_ex (\<lambda>key. jsonStringifyThrows (getMember ownProps chain key))
             (getClassFields ownProps chain)"
| "jsonStringifyThrows JUndefined = False"
| "jsonStringifyThrows JNull = False"
| "jsonStringifyThrows (JBool b) = False"
| "jsonStringifyThrows (JNum n) = False"
| "jsonStringifyThrows (JStr s) = False"
| "jsonStringifyThrows (JSymbol s) = False"
| "jsonStringifyThrows (JFun f) = False"
  by pat_completeness auto
termination
  apply (relation "measure size")
  apply simp
  apply (auto dest: size_item_less size_props_less simp: size_getMember)
  done

definition effectiveStrictMode :: "FlexDto \<Rightarrow> bool" where
  "effectiveStrictMode this =
     (case strictMode (opts this) of Some b \<Rightarrow> b | None \<Rightarrow> strictModeAuto this)"

definition validateType :: "env \<Rightarrow> FlexDto \<Rightarrow> string \<Rightarrow> jsval \<Rightarrow> jstype \<Rightarrow> jserror + diag list" where
  "validateType e this key v expectedType =
     (let strict = effectiveStrictMode this in
      if \<not> strict then Inr []
      else
        let actualType = typeof v;
            isCompatible =
              (actualType = expectedType \<or>
               (expectedType = TObject \<and>
                (actualType = TObject \<or> actualType = TUndefined \<or> v = JNull)))
        in
        if \<not> isCompatible then
          (let isDev = isDevelopmentMode e in
           if isDev then
             (if jsonStringifyThrows v
              then Inl (TypeError ''Do not know how to serialize a BigInt'')
              else Inr [TypeMismatch (className this) key expectedType actualType v])
           else Inr [])
        else Inr [])"

section \<open>Field resolver (\<^verbatim>\<open>findMatchingField\<close>, lines 390-435)\<close>

text \<open>Step 3, the loop over \<^verbatim>\<open>Object.entries(aliases)\<close>.\<close>

fun aliasEntriesLoop :: "string \<Rightarrow> string \<Rightarrow> string list \<Rightarrow> (string \<times> string list) list \<Rightarrow> string option" where
  "aliasEntriesLoop dataKey camelKey classFields [] = None"
| "aliasEntriesLoop dataKey camelKey classFields ((fieldKey, fieldAliases) # rest) =
     (if fieldKey \<in> set classFields \<and>
         (dataKey \<in> set fieldAliases \<or> camelKey \<in> set fieldAliases)
      then Some fieldKey
      else aliasEntriesLoop dataKey camelKey classFields rest)"

text \<open>Step 4, the loop over \<^verbatim>\<open>classFields\<close>.\<close>

fun classFieldsLoop :: "string \<Rightarrow> string \<Rightarrow> (string \<times> string list) list \<Rightarrow> string list \<Rightarrow> string option" where
  "classFieldsLoop dataKey camelKey aliasTable [] = None"
| "classFieldsLoop dataKey camelKey aliasTable (fieldKey # rest) =
     (case map_of aliasTable fieldKey of
        Some fieldAliases \<Rightarrow>
          if dataKey \<in> set fieldAliases \<or> camelKey \<in> set fieldAliases then Some fieldKey
          else classFieldsLoop dataKey camelKey aliasTable rest
      | None \<Rightarrow> classFieldsLoop dataKey camelKey aliasTable rest)"

definition findMatchingField :: "FlexDto \<Rightarrow> string \<Rightarrow> string list \<Rightarrow> (string \<times> string list) list \<Rightarrow> string option" where
  "findMatchingField this dataKey classFields aliasTable =
     (if dataKey \<in> set classFields then Some dataKey
      else
        let camelKey = toCamelCase dataKey in
        if camelKey \<in> set classFields then Some camelKey
        else
          (case aliasEntriesLoop dataKey camelKey classFields aliasTable of
             Some fieldKey \<Rightarrow> Some fieldKey
           | None \<Rightarrow>
              (case classFieldsLoop dataKey camelKey aliasTable classFields of
                 Some fieldKey \<Rightarrow> Some fieldKey
               | None \<Rightarrow>
                  if camelKey \<noteq> [] \<and> camelKey \<noteq> dataKey \<and> \<not> startsWithUnderscore camelKey
                  then
                    (let existingValue = thisGet this camelKey in
                     if typeof existingValue \<noteq> TFunction then Some camelKey else None)
                  else None)))"

section \<open>Population (\<^verbatim>\<open>init\<close>, lines 445-533)\<close>

text \<open>\<^verbatim>\<open>{ ...a, ...b }\<close> on tables.\<close>

definition mergeTables :: "(string \<times> 'v) list \<Rightarrow> (string \<times> 'v) list \<Rightarrow> (string \<times> 'v) list" where
  "mergeTables a b = fold (\<lambda>(k, v) acc. setProp acc k v) b a"

text \<open>A target key is used when it is neither \<^verbatim>\<open>null\<close> nor the empty string.\<close>

fun truthyKey :: "string option \<Rightarrow> bool" where
  "truthyKey None = False"
| "truthyKey (Some k) = (k \<noteq> [])"

text \<open>
  Lines 469-494: the target of a data key, \<open>None\<close> when \<^verbatim>\<open>shouldAssign\<close> is false.
\<close>

definition resolveTarget :: "FlexDto \<Rightarrow> string list \<Rightarrow> (string \<times> string list) list \<Rightarrow> string \<Rightarrow> string option" where
  "resolveTarget this classFields aliasTable dataKey =
     (let camelKey = toCamelCase dataKey;
          found = findMatchingField this dataKey classFields aliasTable;
          targetKey =
            (if \<not> truthyKey found \<and> camelKey \<noteq> [] \<and> camelKey \<noteq> dataKey then
               (if \<not> startsWithUnderscore camelKey then
                  (let existingValue = thisGet this camelKey in
                   if typeof existingValue \<noteq> TFunction then Some camelKey else found)
                else found)
             else found)
      in case targetKey of
           None \<Rightarrow> None
         | Some t \<Rightarrow>
             if t \<noteq> [] \<and> \<not> startsWithUnderscore t \<and>
                (t = camelKey \<or> CHR ''_'' \<notin> set dataKey)
             then Some t else None)"

text \<open>Lines 496-531: the value pipeline and the assignment.\<close>

definition assignField :: "env \<Rightarrow> (string \<times> TransformFn) list \<Rightarrow> FlexDto \<Rightarrow> string \<Rightarrow> jsval \<Rightarrow> outcome" where
  "assignField e transformTable this targetKey v =
     (let currentValue = thisGet this targetKey;
          expectedType = (if currentValue \<noteq> JUndefined then Some (typeof currentValue) else None);
          strict = effectiveStrictMode this
      in case map_of transformTable targetKey of
           Some transform \<Rightarrow>
             (case transform v of
                Inr finalValue \<Rightarrow> Returned (thisSet this targetKey finalValue) []
              | Inl error \<Rightarrow>
                  Returned (thisSet this targetKey v)
                    (if strict then
                       (if isDevelopmentMode e
                        then [TransformFailed (className this) targetKey (errorMessage error)]
                        else [])
                     else []))
         | None \<Rightarrow>
             (case expectedType of
                Some t \<Rightarrow>
                  if strict then
                    (case validateType e this targetKey v t of
                       Inl error \<Rightarrow> Threw error this []
                     | Inr ds \<Rightarrow> Returned (thisSet this targetKey v) ds)
                  else Returned (thisSet this targetKey v) []
              | None \<Rightarrow> Returned (thisSet this targetKey v) []))"

text \<open>One iteration of the loop over the keys of the data.\<close>

definition initKey :: "env \<Rightarrow> (string \<times> TransformFn) list \<Rightarrow> (string \<times> string list) list \<Rightarrow> string list \<Rightarrow> FlexDto \<Rightarrow> string \<times> jsval \<Rightarrow> outcome" where
  "initKey e transformTable aliasTable classFields this kv =
     (let dataKey = fst kv; v = snd kv in
      if startsWithUnderscore dataKey then Returned this []
      else if v = JUndefined then Returned this []
      else
        (case resolveTarget this classFields aliasTable dataKey of
           None \<Rightarrow> Returned this []
         | Some targetKey \<Rightarrow> assignField e transformTable this targetKey v))"

fun initLoop :: "env \<Rightarrow> (string \<times> TransformFn) list \<Rightarrow> (string \<times> string list) list \<Rightarrow> string list \<Rightarrow> (string \<times> jsval) list \<Rightarrow> FlexDto \<Rightarrow> diag list \<Rightarrow> outcome" where
  "initLoop e transformTable aliasTable classFields [] this diags = Returned this diags"
| "initLoop e transformTable aliasTable classFields (kv # rest) this diags =
     (case initKey e transformTable aliasTable classFields this kv of
        Returned this' ds \<Rightarrow>
          initLoop e transformTable aliasTable classFields rest this' (diags @ ds)
      | Threw error this' ds \<Rightarrow> Threw error this' (diags @ ds))"

text \<open>
  The keys that \<^verbatim>\<open>for (const dataKey in dataObj)\<close> visits and pass the
  \<^verbatim>\<open>hasOwnProperty\<close> test, with their values: the own properties of a plain object or of
  an instance, the indices of an array.
\<close>

definition digitChar :: "nat \<Rightarrow> char" where
  "digitChar d = ''0123456789'' ! d"

fun indexKey :: "nat \<Rightarrow> string" where
  "indexKey n = (if n < 10 then [digitChar n] else indexKey (n div 10) @ [digitChar (n mod 10)])"

fun dataEntries :: "jsval \<Rightarrow> (string \<times> jsval) list" where
  "dataEntries (JObj ps) = ps"
| "dataEntries (JDto c ownProps chain) = ownProps"
| "dataEntries (JArr items) = zip (map indexKey [0..<length items]) items"
| "dataEntries v = []"

definition init :: "env \<Rightarrow> FlexDto \<Rightarrow> jsval \<Rightarrow> FlexDtoOptions \<Rightarrow> outcome" where
  "init e this data options =
     (if \<not> truthy data \<or> typeof data \<noteq> TObject then Returned this []
      else
        let this1 = this\<lparr>opts := options\<rparr>;
            aliasTable = mergeTables (aliasMetadata this1) (aliases (opts this1));
            transformTable = mergeTables (transformMetadata this1) (transforms (opts this1));
            classFields = getClassFields (own this1) (protos this1)
        in initLoop e transformTable aliasTable classFields (dataEntries data) this1 [])"

text \<open>
  The constructor of \<^verbatim>\<open>FlexDto\<close> followed by the field initialisers of the subclass: a fresh
  instance of a class with the given default properties.
\<close>

definition newInstance :: "env \<Rightarrow> string \<Rightarrow> props \<Rightarrow> props list \<Rightarrow> (string \<times> string list) list \<Rightarrow> (string \<times> TransformFn) list \<Rightarrow> FlexDto" where
  "newInstance e name defaults chain aliasDecl transformDecl =
     \<lparr>className = name, own = defaults, protos = chain, opts = noOptions,
      strictModeAuto = isDevelopmentMode e,
      aliasMetadata = aliasDecl, transformMetadata = transformDecl\<rparr>"

text \<open>
  \<^verbatim>\<open>isValidFieldName\<close> (lines 366-383); the pattern is \<^verbatim>\<open>/^[a-z][a-zA-Z0-9]*$/\<close>, which the
  source calls the camelCase pattern.
\<close>

definition isAlnum :: "char \<Rightarrow> bool" where
  "isAlnum c = (c \<in> set lowerLetters \<or> c \<in> set upperLetters \<or> c \<in> set ''0123456789'')"

definition camelPattern :: "string \<Rightarrow> bool" where
  "camelPattern s = (case s of [] \<Rightarrow> False | c # cs \<Rightarrow> isAZ c \<and> list_all isAlnum cs)"

definition isValidFieldName :: "FlexDto \<Rightarrow> string \<Rightarrow> bool" where
  "isValidFieldName this fieldName =
     (if startsWithUnderscore fieldName then False
      else if fieldName \<in> set (getClassFields (own this) (protos this)) then True
      else if typeof (thisGet this fieldName) = TFunction then False
      else camelPattern fieldName)"

section \<open>Example classes\<close>

definition devEnv :: env where
  "devEnv = \<lparr>nodeEnv = Some ''development'', globalStrictFlag = False, windowStrictFlag = False\<rparr>"

definition prodEnv :: env where
  "prodEnv = \<lparr>nodeEnv = Some ''production'', globalStrictFlag = False, windowStrictFlag = False\<rparr>"

definition strictOptions :: FlexDtoOptions where
  "strictOptions = \<lparr>aliases = [], transforms = [], strictMode = Some True\<rparr>"

definition laxOptions :: FlexDtoOptions where
  "laxOptions = \<lparr>aliases = [], transforms = [], strictMode = Some False\<rparr>"

text \<open>\<^verbatim>\<open>class StrictUser extends FlexDto { age = 0; }\<close>\<close>

definition strictUser :: FlexDto where
  "strictUser =
     newInstance prodEnv ''StrictUser'' [(''age'', JNum 0)]
       [[(''constructor'', JFun ''StrictUser'')]] [] []"


text \<open>A transform that raises, as \<^verbatim>\<open>(v) => { throw new Error("Invalid age") }\<close>.\<close>

definition failingTransform :: TransformFn where
  "failingTransform v = Inl (Thrown ''Invalid age'')"

text \<open>\<^verbatim>\<open>class User extends FlexDto { userId = ""; }\<close>\<close>

definition userDto :: FlexDto where
  "userDto =
     newInstance prodEnv ''User'' [(''userId'', JStr [])]
       [[(''constructor'', JFun ''User'')]] [] []"

text \<open>\<^verbatim>\<open>class Account extends FlexDto { userID = ""; }\<close>, a field name with an acronym.\<close>

definition accountDto :: FlexDto where
  "accountDto =
     newInstance prodEnv ''Account'' [(''userID'', JStr [])]
       [[(''constructor'', JFun ''Account'')]] [] []"




text \<open>
  \<^verbatim>\<open>class NoInitialValueDto extends FlexDto { age: number; }\<close> when the declaration leaves no
  property on the instance (class fields compiled away, as TypeScript does for targets
  before ECMAScript 2022).
\<close>

definition bareDto :: FlexDto where
  "bareDto =
     newInstance prodEnv ''NoInitialValueDto'' []
       [[(''constructor'', JFun ''NoInitialValueDto'')]] [] []"

text \<open>Two instances with the same properties and prototypes.\<close>

definition sameFields :: "FlexDto \<Rightarrow> FlexDto \<Rightarrow> bool" where
  "sameFields a b = (own a = own b \<and> protos a = protos b)"

text \<open>
  \<^verbatim>\<open>class Order extends FlexDto { customer = ""; }\<close>, populated with the alias table
  \<^verbatim>\<open>{ customer: ["cust_name"] }\<close>.
\<close>

definition customerDto :: FlexDto where
  "customerDto =
     newInstance prodEnv ''Order'' [(''customer'', JStr [])]
       [[(''constructor'', JFun ''Order'')]] [] []"



section \<open>Names that the case converter inverts\<close>

text \<open>No two adjacent upper-case letters: the name has no acronym run.\<close>

fun noUpperRun :: "string \<Rightarrow> bool" where
  "noUpperRun (c # d # cs) = (\<not> (isUpper c \<and> isUpper d) \<and> noUpperRun (d # cs))"
| "noUpperRun cs = True"

section \<open>The resolution order in the words of the specification\<close>


section \<open>Facts about field discovery\<close>

lemma set_setAdd [simp]: "set (setAdd fs x) = insert x (set fs)"
  by (auto simp: setAdd_def)







section \<open>Skipped keys\<close>

lemma initKey_undefined:
  "initKey e transformTable aliasTable classFields this (k, JUndefined) = Returned this []"
  by (simp add: initKey_def)

lemma initLoop_filter_undefined:
  "initLoop e tt al cf (filter (\<lambda>kv. snd kv \<noteq> JUndefined) ps) this ds = initLoop e tt al cf ps this ds"
proof (induction ps arbitrary: this ds)
  case Nil
  show ?case by simp
next
  case (Cons kv ps)
  show ?case
  proof (cases "snd kv = JUndefined")
    case True
    then have "initKey e tt al cf this kv = Returned this []"
      by (simp add: initKey_def Let_def)
    with True Cons show ?thesis by simp
  next
    case False
    with Cons show ?thesis by (simp split: outcome.splits)
  qed
qed


section \<open>Facts about resolution and assignment\<close>

lemma map_of_setProp: "map_of (setProp ps k v) = (map_of ps)(k \<mapsto> v)"
  by (induction ps) (auto simp: fun_eq_iff)

lemma camelReplace_no_underscore: "CHR ''_'' \<notin> set s \<Longrightarrow> camelReplace s = s"
  by (induction s rule: camelReplace.induct) auto

lemma toCamelCase_no_underscore: "CHR ''_'' \<notin> set s \<Longrightarrow> toCamelCase s = s"
  by (simp add: toCamelCase_def camelReplace_no_underscore)




lemma resolveTarget_Some:
  assumes "resolveTarget this cf al k = Some t"
  shows "t \<noteq> [] \<and> \<not> startsWithUnderscore t \<and> (t = toCamelCase k \<or> CHR ''_'' \<notin> set k)"
  using assms by (auto simp: resolveTarget_def Let_def split: option.splits if_splits)

lemma assignField_own:
  "own (outcomeInstance (assignField e tt this t v)) = own this
   \<or> (\<exists>x. own (outcomeInstance (assignField e tt this t v)) = setProp (own this) t x)"
  by (auto simp: assignField_def Let_def thisSet_def split: option.splits sum.splits)

lemma initKey_changes:
  assumes "map_of (own (outcomeInstance (initKey e tt al cf this (k, v)))) n \<noteq> map_of (own this) n"
  shows "resolveTarget this cf al k = Some n"
proof -
  from assms obtain t where t: "resolveTarget this cf al k = Some t"
    and a: "initKey e tt al cf this (k, v) = assignField e tt this t v"
    by (auto simp: initKey_def Let_def split: if_splits option.splits)
  from assignField_own[of e tt this t v] assms a have "n = t"
    by (auto simp: map_of_setProp split: if_splits)
  with t show ?thesis by simp
qed





section \<open>Facts about the case converter\<close>

lemma charToUpperCase_other: "c \<notin> set lowerLetters \<Longrightarrow> charToUpperCase c = c"
proof -
  assume "c \<notin> set lowerLetters"
  moreover have "length lowerLetters = length upperLetters"
    by (simp add: lowerLetters_def upperLetters_def)
  ultimately have "map_of (zip lowerLetters upperLetters) c = None"
    by (simp add: map_of_zip_is_None)
  then show ?thesis by (simp add: charToUpperCase_def)
qed

lemma charToLowerCase_other: "c \<notin> set upperLetters \<Longrightarrow> charToLowerCase c = c"
proof -
  assume "c \<notin> set upperLetters"
  moreover have "length upperLetters = length lowerLetters"
    by (simp add: lowerLetters_def upperLetters_def)
  ultimately have "map_of (zip upperLetters lowerLetters) c = None"
    by (simp add: map_of_zip_is_None)
  then show ?thesis by (simp add: charToLowerCase_def)
qed

lemma upper_letters_table:
  "list_all (\<lambda>c. c \<notin> set lowerLetters \<and> charToLowerCase c \<in> set lowerLetters
                \<and> charToLowerCase c \<noteq> c \<and> charToUpperCase (charToLowerCase c) = c)
     upperLetters"
  by code_simp

lemma upper_letter_facts:
  assumes "c \<in> set upperLetters"
  shows "c \<notin> set lowerLetters \<and> charToLowerCase c \<in> set lowerLetters
         \<and> charToLowerCase c \<noteq> c \<and> charToUpperCase (charToLowerCase c) = c"
  using upper_letters_table assms unfolding list_all_iff by blast

lemma isUpper_iff: "isUpper c \<longleftrightarrow> c \<in> set upperLetters"
proof
  assume "isUpper c"
  then have "c \<noteq> charToLowerCase c" by (simp add: isUpper_def)
  then show "c \<in> set upperLetters"
    using charToLowerCase_other[of c] by metis
next
  assume u: "c \<in> set upperLetters"
  then show "isUpper c"
    using upper_letter_facts[OF u] charToUpperCase_other[of c] by (auto simp: isUpper_def)
qed

lemma isAZ_not_upper: "isAZ c \<Longrightarrow> \<not> isUpper c"
  using upper_letter_facts[of c] by (auto simp: isUpper_iff isAZ_def)

lemma upper_lower_roundtrip:
  "isUpper c \<Longrightarrow> isAZ (charToLowerCase c) \<and> charToUpperCase (charToLowerCase c) = c"
  using upper_letter_facts[of c] by (simp add: isUpper_iff isAZ_def)

lemma alnum_table:
  "list_all (\<lambda>c. c \<noteq> CHR ''_'') (lowerLetters @ upperLetters @ ''0123456789'')"
  by code_simp

lemma isAlnum_not_underscore: "isAlnum c \<Longrightarrow> c \<noteq> CHR ''_''"
  using alnum_table unfolding list_all_iff isAlnum_def by auto

lemma isAZ_not_underscore: "isAZ c \<Longrightarrow> c \<noteq> CHR ''_''"
  using isAlnum_not_underscore[of c] by (simp add: isAZ_def isAlnum_def)

lemma camelReplace_Cons_other:
  "c \<noteq> CHR ''_'' \<Longrightarrow> camelReplace (c # cs) = c # camelReplace cs"
  by (cases cs) auto

lemma camelReplace_toSnakeLoop:
  assumes "list_all isAlnum cs" "noUpperRun (p # cs)"
  shows "camelReplace (toSnakeLoop (Some p) cs) = cs"
  using assms
proof (induction cs arbitrary: p)
  case Nil
  show ?case by simp
next
  case (Cons c cs)
  have ih: "camelReplace (toSnakeLoop (Some c) cs) = cs"
    using Cons by simp
  show ?case
  proof (cases "isUpper c")
    case True
    with Cons.prems have "\<not> isUpper p" by simp
    with True ih upper_lower_roundtrip[OF True] show ?thesis by simp
  next
    case False
    have "c \<noteq> CHR ''_''" using Cons.prems isAlnum_not_underscore by simp
    with False ih show ?thesis by (simp add: camelReplace_Cons_other)
  qed
qed

lemma camel_of_snake:
  assumes "camelPattern f" "noUpperRun f"
  shows "toCamelCase (toSnakeCase f) = f"
proof -
  from assms(1) obtain c cs where f: "f = c # cs" and az: "isAZ c" and al: "list_all isAlnum cs"
    by (auto simp: camelPattern_def split: list.splits)
  have "toSnakeLoop None f = c # toSnakeLoop (Some c) cs"
    using f isAZ_not_upper[OF az] by simp
  moreover have "camelReplace (toSnakeLoop (Some c) cs) = cs"
    using camelReplace_toSnakeLoop[OF al] assms(2) f by simp
  ultimately show ?thesis
    using f isAZ_not_underscore[OF az]
    by (simp add: toCamelCase_def toSnakeCase_def camelReplace_Cons_other)
qed

lemma camelPattern_facts:
  assumes "camelPattern f"
  shows "f \<noteq> []" "\<not> startsWithUnderscore f" "CHR ''_'' \<notin> set f"
  using assms isAZ_not_underscore isAlnum_not_underscore
  by (auto simp: camelPattern_def startsWithUnderscore_def list_all_iff split: list.splits)

lemma toSnakeCase_first:
  assumes "camelPattern f"
  shows "\<not> startsWithUnderscore (toSnakeCase f)"
  using assms isAZ_not_upper isAZ_not_underscore
  by (auto simp: camelPattern_def startsWithUnderscore_def toSnakeCase_def split: list.splits)

lemma resolveTarget_declared:
  assumes "f \<in> set cf" "camelPattern f"
  shows "resolveTarget this cf al f = Some f"
  using assms camelPattern_facts[OF assms(2)] toCamelCase_no_underscore[of f]
  by (simp add: resolveTarget_def findMatchingField_def)

lemma resolveTarget_snake:
  assumes "f \<in> set cf" "camelPattern f" "toCamelCase k = f" "k \<notin> set cf"
  shows "resolveTarget this cf al k = Some f"
  using assms camelPattern_facts[OF assms(2)]
  by (simp add: resolveTarget_def findMatchingField_def)

section \<open>Facts about instances that hold scalars\<close>

















section \<open>Diagnostics and data\<close>

text \<open>
  When neither run raises, the diagnostics settings (the option, the flag sampled at
  construction, the environment) do not reach the properties of the instance.
\<close>

lemma thisGet_sameFields: "sameFields a b \<Longrightarrow> thisGet a = thisGet b"
  by (simp add: sameFields_def thisGet_def fun_eq_iff)

lemma resolveTarget_sameFields:
  assumes "sameFields a b"
  shows "resolveTarget a cf al k = resolveTarget b cf al k"
  unfolding resolveTarget_def findMatchingField_def thisGet_sameFields[OF assms] ..

lemma assignField_sameFields:
  assumes "sameFields a b"
      and "assignField e1 tt a t v = Returned a' ds1"
      and "assignField e2 tt b t v = Returned b' ds2"
  shows "sameFields a' b'"
  using assms
  by (auto simp: sameFields_def assignField_def thisGet_def thisSet_def Let_def
      split: option.splits sum.splits if_splits)

lemma initKey_sameFields:
  assumes "sameFields a b"
      and "initKey e1 tt al cf a kv = Returned a' ds1"
      and "initKey e2 tt al cf b kv = Returned b' ds2"
  shows "sameFields a' b'"
proof -
  have r: "resolveTarget a cf al (fst kv) = resolveTarget b cf al (fst kv)"
    using resolveTarget_sameFields[OF assms(1)] .
  show ?thesis
  proof (cases "startsWithUnderscore (fst kv) \<or> snd kv = JUndefined \<or> resolveTarget a cf al (fst kv) = None")
    case True
    then have "a' = a" "b' = b" using assms(2,3) r
      by (auto simp: initKey_def Let_def split: if_splits)
    then show ?thesis using assms(1) by simp
  next
    case False
    then obtain t where t: "resolveTarget a cf al (fst kv) = Some t" by auto
    have "assignField e1 tt a t (snd kv) = Returned a' ds1"
      using False t assms(2) by (simp add: initKey_def Let_def)
    moreover have "assignField e2 tt b t (snd kv) = Returned b' ds2"
      using False t r assms(3) by (simp add: initKey_def Let_def)
    ultimately show ?thesis using assignField_sameFields[OF assms(1)] by blast
  qed
qed

lemma initLoop_sameFields:
  assumes "sameFields a b"
      and "\<not> hasThrown (initLoop e1 tt al cf kvs a d1)"
      and "\<not> hasThrown (initLoop e2 tt al cf kvs b d2)"
  shows "sameFields (outcomeInstance (initLoop e1 tt al cf kvs a d1))
                    (outcomeInstance (initLoop e2 tt al cf kvs b d2))"
  using assms
proof (induction kvs arbitrary: a b d1 d2)
  case Nil
  then show ?case by simp
next
  case (Cons kv kvs)
  from Cons.prems(2) obtain a' ds1 where a': "initKey e1 tt al cf a kv = Returned a' ds1"
    by (cases "initKey e1 tt al cf a kv") auto
  from Cons.prems(3) obtain b' ds2 where b': "initKey e2 tt al cf b kv = Returned b' ds2"
    by (cases "initKey e2 tt al cf b kv") auto
  have s: "sameFields a' b'" using initKey_sameFields[OF Cons.prems(1) a' b'] .
  show ?case
    using Cons.IH[OF s, of "d1 @ ds1" "d2 @ ds2"] Cons.prems(2,3) a' b' by simp
qed

lemma fields_independent_of_diagnostics:
  assumes "aliases o1 = aliases o2" and "transforms o1 = transforms o2"
      and "\<not> hasThrown (init e1 this data o1)"
      and "\<not> hasThrown (init e2 (this\<lparr>strictModeAuto := s\<rparr>) data o2)"
  shows "own (outcomeInstance (init e1 this data o1))
           = own (outcomeInstance (init e2 (this\<lparr>strictModeAuto := s\<rparr>) data o2))"
proof (cases "\<not> truthy data \<or> typeof data \<noteq> TObject")
  case True
  then show ?thesis by (simp add: init_def)
next
  case False
  let ?a = "this\<lparr>opts := o1\<rparr>"
  let ?b = "this\<lparr>strictModeAuto := s, opts := o2\<rparr>"
  have sf: "sameFields ?a ?b" by (simp add: sameFields_def)
  let ?tt = "mergeTables (transformMetadata this) (transforms o1)"
  let ?al = "mergeTables (aliasMetadata this) (aliases o1)"
  let ?cf = "getClassFields (own this) (protos this)"
  have i1: "init e1 this data o1 = initLoop e1 ?tt ?al ?cf (dataEntries data) ?a []"
    using False by (simp add: init_def)
  have i2: "init e2 (this\<lparr>strictModeAuto := s\<rparr>) data o2
              = initLoop e2 ?tt ?al ?cf (dataEntries data) ?b []"
    using False assms(1,2) by (simp add: init_def)
  show ?thesis
    using initLoop_sameFields[OF sf, of e1 ?tt ?al ?cf "dataEntries data" "[]" e2 "[]"]
      assms(3,4) unfolding i1 i2 by (simp add: sameFields_def)
qed

lemma absent_property_key_dropped:
  "init devEnv bareDto (JObj [(''age'', JStr ''30'')]) strictOptions
     = Returned (bareDto\<lparr>opts := strictOptions\<rparr>) []"
  by (simp add: init_def bareDto_def newInstance_def strictOptions_def mergeTables_def
      getClassFields_def instanceFields_def prototypeFields_def startsWithUnderscore_def
      initKey_def resolveTarget_def findMatchingField_def toCamelCase_def)

text \<open>
  An iteration raises only while building the type-mismatch warning, so \<^verbatim>\<open>init\<close> does not
  raise unless strict mode is in effect under development.
\<close>

lemma assignField_raises:
  assumes "hasThrown (assignField e tt this t v)"
  shows "effectiveStrictMode this \<and> isDevelopmentMode e \<and> jsonStringifyThrows v
         \<and> map_of tt t = None"
  using assms
  by (auto simp: assignField_def validateType_def Let_def
      split: option.splits sum.splits if_splits)

lemma initKey_raises:
  assumes "hasThrown (initKey e tt al cf this (k, v))"
  shows "effectiveStrictMode this \<and> isDevelopmentMode e \<and> jsonStringifyThrows v
         \<and> (\<exists>t. resolveTarget this cf al k = Some t \<and> map_of tt t = None)"
proof -
  from assms obtain t where t: "resolveTarget this cf al k = Some t"
    and a: "initKey e tt al cf this (k, v) = assignField e tt this t v"
    by (auto simp: initKey_def Let_def split: if_splits option.splits)
  from assms a have "hasThrown (assignField e tt this t v)" by simp
  from assignField_raises[OF this] t show ?thesis by blast
qed

lemma assignField_keeps_mode:
  "effectiveStrictMode (outcomeInstance (assignField e tt this t v)) = effectiveStrictMode this"
  by (auto simp: assignField_def Let_def thisSet_def effectiveStrictMode_def
      split: option.splits sum.splits)

lemma initKey_keeps_mode:
  "effectiveStrictMode (outcomeInstance (initKey e tt al cf this kv)) = effectiveStrictMode this"
  by (auto simp: initKey_def Let_def assignField_keeps_mode split: option.splits)

lemma initLoop_no_raise:
  assumes "\<not> (effectiveStrictMode this \<and> isDevelopmentMode e)"
  shows "\<not> hasThrown (initLoop e tt al cf kvs this ds)"
  using assms
proof (induction kvs arbitrary: this ds)
  case Nil
  show ?case by simp
next
  case (Cons kv kvs)
  obtain k v where kv: "kv = (k, v)" by (cases kv)
  have nt: "\<not> hasThrown (initKey e tt al cf this kv)"
    using initKey_raises[of e tt al cf this k v] Cons.prems kv by blast
  then obtain this' ds1 where r: "initKey e tt al cf this kv = Returned this' ds1"
    by (cases "initKey e tt al cf this kv") auto
  have "effectiveStrictMode this' = effectiveStrictMode this"
    using initKey_keeps_mode[of e tt al cf this kv] r by simp
  with Cons.prems have "\<not> (effectiveStrictMode this' \<and> isDevelopmentMode e)" by simp
  from Cons.IH[OF this] r show ?case by simp
qed

lemma init_no_raise_without_strict_development:
  assumes "\<not> ((case strictMode options of Some b \<Rightarrow> b | None \<Rightarrow> strictModeAuto this)
              \<and> isDevelopmentMode e)"
  shows "\<not> hasThrown (init e this data options)"
proof (cases "\<not> truthy data \<or> typeof data \<noteq> TObject")
  case True
  then show ?thesis by (simp add: init_def)
next
  case False
  have "\<not> (effectiveStrictMode (this\<lparr>opts := options\<rparr>) \<and> isDevelopmentMode e)"
    using assms by (simp add: effectiveStrictMode_def split: option.splits)
  from initLoop_no_raise[OF this] False show ?thesis
    by (simp add: init_def)
qed

section \<open>Claims\<close>

text \<open>
  C10. When the data passed to \<^verbatim>\<open>init\<close> is \<^verbatim>\<open>null\<close>, \<^verbatim>\<open>undefined\<close> or not of type object,
  \<^verbatim>\<open>init\<close> returns at once: the instance is the one it was given (its fields and also its
  stored options), and no warning is written.
\<close>

theorem init_non_object_data:
  assumes "data = JNull \<or> data = JUndefined \<or> typeof data \<noteq> TObject"
  shows "init e this data options = Returned this []"
  using assms by (auto simp: init_def)

theorem init_non_object_data_witness:
  "(JStr ''abc'' = JNull \<or> JStr ''abc'' = JUndefined \<or> typeof (JStr ''abc'') \<noteq> TObject)
   \<and> init devEnv strictUser (JStr ''abc'') strictOptions = Returned strictUser []"
proof -
  have h: "JStr ''abc'' = JNull \<or> JStr ''abc'' = JUndefined \<or> typeof (JStr ''abc'') \<noteq> TObject"
    by simp
  show ?thesis
    using h init_non_object_data [OF h, of devEnv strictUser strictOptions] by simp
qed

text \<open>
  C9. A key of the payload whose value is \<^verbatim>\<open>undefined\<close> is skipped before any resolution:
  the iteration returns the instance unchanged with no warning, whatever the transform
  table, the alias table and the declared fields are; and \<^verbatim>\<open>init\<close> on a payload is
  \<^verbatim>\<open>init\<close> on the payload without its undefined entries.
\<close>

theorem init_skips_undefined:
  "initKey e transformTable aliasTable classFields this (k, JUndefined) = Returned this []
   \<and> init e this (JObj ps) options
       = init e this (JObj (filter (\<lambda>kv. snd kv \<noteq> JUndefined) ps)) options"
  by (simp add: initKey_undefined init_def initLoop_filter_undefined Let_def)

theorem init_skips_undefined_witness:
  "initKey devEnv [(''age'', failingTransform)] [] [''age''] strictUser (''age'', JUndefined)
     = Returned strictUser []
   \<and> init devEnv strictUser (JObj [(''age'', JUndefined)]) strictOptions
       = Returned (strictUser\<lparr>opts := strictOptions\<rparr>) []"
  using init_skips_undefined [of devEnv "[(''age'', failingTransform)]" "[]" "[''age'']"
      strictUser "''age''" "[(''age'', JUndefined)]" strictOptions]
  by (simp add: init_def)





text \<open>
  C5. The target that an iteration of \<^verbatim>\<open>init\<close> on the key \<open>k\<close> writes is the camelCase
  projection of \<open>k\<close>, or else \<open>k\<close> holds no underscore; so a key that differs from its
  camelCase projection is never the name written. With no target the iteration leaves the
  instance as it is, and a property that the iteration changes is the target.
\<close>

theorem guardrail_written_name:
  "(resolveTarget this cf al k = Some t
      \<longrightarrow> (t = toCamelCase k \<or> CHR ''_'' \<notin> set k) \<and> (toCamelCase k \<noteq> k \<longrightarrow> t \<noteq> k))
   \<and> (resolveTarget this cf al k = None
      \<longrightarrow> initKey e tt al cf this (k, v) = Returned this [])
   \<and> (map_of (own (outcomeInstance (initKey e tt al cf this (k, v)))) n \<noteq> map_of (own this) n
      \<longrightarrow> resolveTarget this cf al k = Some n)"
proof (intro conjI impI)
  assume r: "resolveTarget this cf al k = Some t"
  show "t = toCamelCase k \<or> CHR ''_'' \<notin> set k"
    using resolveTarget_Some[OF r] by simp
  assume "toCamelCase k \<noteq> k"
  then show "t \<noteq> k"
    using resolveTarget_Some[OF r] toCamelCase_no_underscore[of k] by auto
next
  assume "resolveTarget this cf al k = None"
  then show "initKey e tt al cf this (k, v) = Returned this []"
    by (simp add: initKey_def Let_def)
next
  assume "map_of (own (outcomeInstance (initKey e tt al cf this (k, v)))) n \<noteq> map_of (own this) n"
  then show "resolveTarget this cf al k = Some n"
    by (rule initKey_changes)
qed

theorem guardrail_written_name_witness:
  "resolveTarget userDto [''userId''] [] ''user_id'' = Some ''userId''
   \<and> toCamelCase ''user_id'' = ''userId''
   \<and> (''userId'' = toCamelCase ''user_id'' \<or> CHR ''_'' \<notin> set ''user_id'')
   \<and> map_of (own (outcomeInstance
         (initKey prodEnv [] [] [''userId''] userDto (''user_id'', JStr ''U001'')))) ''userId''
       \<noteq> map_of (own userDto) ''userId''
   \<and> resolveTarget customerDto [''customer''] [(''customer'', [''cust_name''])] ''cust_name'' = None
   \<and> initKey prodEnv [] [(''customer'', [''cust_name''])] [''customer''] customerDto
         (''cust_name'', JStr ''Kim'')
       = Returned customerDto []"
proof -
  have r: "resolveTarget userDto [''userId''] [] ''user_id'' = Some ''userId''"
    by code_simp
  have c: "toCamelCase ''user_id'' = ''userId''"
    by code_simp
  have h: "map_of (own (outcomeInstance
       (initKey prodEnv [] [] [''userId''] userDto (''user_id'', JStr ''U001'')))) ''userId''
     \<noteq> map_of (own userDto) ''userId''"
    by code_simp
  have d: "resolveTarget customerDto [''customer''] [(''customer'', [''cust_name''])] ''cust_name'' = None"
    by code_simp
  have g: "''userId'' = toCamelCase ''user_id'' \<or> CHR ''_'' \<notin> set ''user_id''"
    using r guardrail_written_name [of userDto "[''userId'']" "[]" "''user_id''" "''userId''"
        prodEnv "[]" "JStr ''U001''" "''userId''"]
    by blast
  have b: "initKey prodEnv [] [(''customer'', [''cust_name''])] [''customer''] customerDto
         (''cust_name'', JStr ''Kim'')
       = Returned customerDto []"
    using d guardrail_written_name [of customerDto "[''customer'']"
        "[(''customer'', [''cust_name''])]" "''cust_name''" "''customer''" prodEnv "[]"
        "JStr ''Kim''" "''customer''"]
    by blast
  from r c g h d b show ?thesis by (intro conjI)
qed



text \<open>
  C3. The claim is that \<^verbatim>\<open>init\<close> never raises. In strict mode under development, a
  BigInt for the number field \<^verbatim>\<open>age\<close> is a type mismatch, and building the warning calls
  \<^verbatim>\<open>JSON.stringify\<close> on the value, which raises a \<^verbatim>\<open>TypeError\<close>: \<^verbatim>\<open>init\<close> ends by raising it,
  with the field not assigned.
\<close>

theorem init_raises_on_bigint_mismatch:
  "init devEnv strictUser (JObj [(''age'', JBigInt 10)]) strictOptions
     = Threw (TypeError ''Do not know how to serialize a BigInt'')
         (strictUser\<lparr>opts := strictOptions\<rparr>) []"
  by (simp add: init_def strictUser_def newInstance_def strictOptions_def devEnv_def prodEnv_def
      mergeTables_def getClassFields_def instanceFields_def prototypeFields_def getMember_def
      setAdd_def startsWithUnderscore_def initKey_def resolveTarget_def findMatchingField_def
      toCamelCase_def assignField_def thisGet_def thisSet_def effectiveStrictMode_def
      validateType_def isDevelopmentMode_def)

theorem init_raises_on_bigint_mismatch_witness:
  "hasThrown (init devEnv strictUser (JObj [(''age'', JBigInt 10)]) strictOptions)
   \<and> own (outcomeInstance (init devEnv strictUser (JObj [(''age'', JBigInt 10)]) strictOptions))
       = [(''age'', JNum 0)]"
  using init_raises_on_bigint_mismatch by (simp add: strictUser_def newInstance_def)

text \<open>
  C6. The claim is that the diagnostics setting never changes a field. On the payload
  \<^verbatim>\<open>{age: 10n, user_name: "Kim"}\<close> under development, \<^verbatim>\<open>strictMode: true\<close> ends at the first
  key by raising and leaves \<^verbatim>\<open>age\<close> at 0 and \<^verbatim>\<open>userName\<close> unassigned, while
  \<^verbatim>\<open>strictMode: false\<close> assigns both.
\<close>

theorem strict_mode_changes_fields:
  "own (outcomeInstance
       (init devEnv strictUser (JObj [(''age'', JBigInt 10), (''user_name'', JStr ''Kim'')])
          strictOptions))
     = [(''age'', JNum 0)]
   \<and> own (outcomeInstance
       (init devEnv strictUser (JObj [(''age'', JBigInt 10), (''user_name'', JStr ''Kim'')])
          laxOptions))
     = [(''age'', JBigInt 10), (''userName'', JStr ''Kim'')]"
  by code_simp

theorem strict_mode_changes_fields_witness:
  "own (outcomeInstance
       (init devEnv strictUser (JObj [(''age'', JBigInt 10), (''user_name'', JStr ''Kim'')])
          strictOptions))
     \<noteq> own (outcomeInstance
       (init devEnv strictUser (JObj [(''age'', JBigInt 10), (''user_name'', JStr ''Kim'')])
          laxOptions))"
  using strict_mode_changes_fields by simp

text \<open>
  C1, as amended. For a declared field \<open>f\<close> that matches the camelCase pattern and has no two
  adjacent upper-case letters, in a class that declares no other field spelt
  \<open>toSnakeCase f\<close>: \<open>toCamelCase (toSnakeCase f) = f\<close>, and \<^verbatim>\<open>init\<close> with the single-key payload
  under the snake_case spelling has the outcome of \<^verbatim>\<open>init\<close> with the payload under \<open>f\<close>: the
  same instance, the same warnings, the same error if any.
\<close>

theorem camel_snake_populate_same:
  assumes "f \<in> set (getClassFields (own this) (protos this))"
      and "camelPattern f" and "noUpperRun f"
      and "toSnakeCase f \<in> set (getClassFields (own this) (protos this)) \<longrightarrow> toSnakeCase f = f"
  shows "toCamelCase (toSnakeCase f) = f
         \<and> init e this (JObj [(toSnakeCase f, v)]) options = init e this (JObj [(f, v)]) options"
proof -
  let ?cf = "getClassFields (own this) (protos this)"
  have inv: "toCamelCase (toSnakeCase f) = f"
    using camel_of_snake[OF assms(2,3)] .
  have res: "resolveTarget t ?cf al (toSnakeCase f) = resolveTarget t ?cf al f" for t al
  proof (cases "toSnakeCase f = f")
    case True
    then show ?thesis by simp
  next
    case False
    with assms(4) have "toSnakeCase f \<notin> set ?cf" by blast
    then show ?thesis
      using resolveTarget_snake[OF assms(1,2) inv] resolveTarget_declared[OF assms(1,2)] by simp
  qed
  have key: "initKey e tt al ?cf t (toSnakeCase f, v) = initKey e tt al ?cf t (f, v)" for tt al t
    using res toSnakeCase_first[OF assms(2)] camelPattern_facts(2)[OF assms(2)]
    by (simp add: initKey_def)
  show ?thesis
    using inv key by (simp add: init_def)
qed

theorem camel_snake_populate_same_witness:
  "''userId'' \<in> set (getClassFields (own userDto) (protos userDto))
   \<and> camelPattern ''userId'' \<and> noUpperRun ''userId''
   \<and> toSnakeCase ''userId'' = ''user_id''
   \<and> ''user_id'' \<notin> set (getClassFields (own userDto) (protos userDto))
   \<and> toCamelCase ''user_id'' = ''userId''
   \<and> init prodEnv userDto (JObj [(''user_id'', JStr ''U001'')]) noOptions
       = init prodEnv userDto (JObj [(''userId'', JStr ''U001'')]) noOptions
   \<and> own (outcomeInstance (init prodEnv userDto (JObj [(''userId'', JStr ''U001'')]) noOptions))
       = [(''userId'', JStr ''U001'')]"
proof -
  have h1: "''userId'' \<in> set (getClassFields (own userDto) (protos userDto))" by code_simp
  have h2: "camelPattern ''userId''" by code_simp
  have h3: "noUpperRun ''userId''" by code_simp
  have s: "toSnakeCase ''userId'' = ''user_id''" by code_simp
  have n: "''user_id'' \<notin> set (getClassFields (own userDto) (protos userDto))" by code_simp
  have h4: "toSnakeCase ''userId'' \<in> set (getClassFields (own userDto) (protos userDto))
              \<longrightarrow> toSnakeCase ''userId'' = ''userId''"
    using s n by simp
  have r: "own (outcomeInstance (init prodEnv userDto (JObj [(''userId'', JStr ''U001'')]) noOptions))
       = [(''userId'', JStr ''U001'')]"
    by code_simp
  show ?thesis
    using h1 h2 h3 s n r
      camel_snake_populate_same [OF h1 h2 h3 h4, of prodEnv "JStr ''U001''" noOptions]
    by simp
qed

text \<open>
  C1 as stated fails on a camelCase name with an acronym: \<^verbatim>\<open>userID\<close> matches the camelCase
  pattern, its snake_case spelling is \<^verbatim>\<open>user_id\<close>, whose camelCase projection is \<^verbatim>\<open>userId\<close>;
  populating with \<^verbatim>\<open>{user_id: "U1"}\<close> leaves \<^verbatim>\<open>userID\<close> empty and adds a property \<^verbatim>\<open>userId\<close>.
\<close>

theorem camel_snake_acronym_counterexample:
  "camelPattern ''userID'' \<and> toSnakeCase ''userID'' = ''user_id''
   \<and> toCamelCase (toSnakeCase ''userID'') \<noteq> ''userID''
   \<and> own (outcomeInstance (init prodEnv accountDto (JObj [(''user_id'', JStr ''U1'')]) noOptions))
       = [(''userID'', JStr []), (''userId'', JStr ''U1'')]
   \<and> own (outcomeInstance (init prodEnv accountDto (JObj [(''userID'', JStr ''U1'')]) noOptions))
       = [(''userID'', JStr ''U1'')]
   \<and> own (outcomeInstance
         (init prodEnv accountDto (JObj [(toSnakeCase ''userID'', JStr ''U1'')]) noOptions))
       \<noteq> own (outcomeInstance
         (init prodEnv accountDto (JObj [(''userID'', JStr ''U1'')]) noOptions))"
  by code_simp




end
